theory Spec2Isabelle
  imports Main
begin

section \<open>JavaScript values\<close>

text \<open>
  The client of \<^verbatim>\<open>src/index.js\<close> handles plain data only: option objects, header
  objects, query-string objects and the scalars stored in them. A value is therefore one
  of the scalars of the language or a plain object, kept as the list of its own
  properties in insertion order. A number is an integer (or \<open>NaN\<close>); a string is a list
  of code units below 256. Arrays and functions do not occur as data here.
\<close>

datatype jsval =
    JUndefined
  | JNull
  | JBool bool
  | JNum int
  | JNaN
  | JStr string
  | JObj "(string \<times> jsval) list"

type_synonym obj = "(string \<times> jsval) list"

text \<open>\<open>ToBoolean\<close>: the test made by \<^verbatim>\<open>||\<close>, \<^verbatim>\<open>!\<close> and \<^verbatim>\<open>if\<close>.\<close>

fun truthy :: "jsval \<Rightarrow> bool" where
  "truthy JUndefined = False"
| "truthy JNull = False"
| "truthy (JBool b) = b"
| "truthy (JNum n) = (n \<noteq> 0)"
| "truthy JNaN = False"
| "truthy (JStr s) = (s \<noteq> [])"
| "truthy (JObj ps) = True"

text \<open>\<^verbatim>\<open>a || b\<close>\<close>

definition js_or :: "jsval \<Rightarrow> jsval \<Rightarrow> jsval" where
  "js_or a b = (if truthy a then a else b)"

text \<open>Own properties: \<^verbatim>\<open>key in object\<close>, \<^verbatim>\<open>object[key]\<close> and \<^verbatim>\<open>object[key] = v\<close>.
  A key that is read and absent gives \<open>undefined\<close>; a key that is written keeps its
  place when it exists and is appended otherwise.\<close>

definition obj_has :: "obj \<Rightarrow> string \<Rightarrow> bool" where
  "obj_has ps k = (k \<in> fst ` set ps)"

definition obj_get :: "obj \<Rightarrow> string \<Rightarrow> jsval option" where
  "obj_get ps k = map_of ps k"

definition getProp :: "obj \<Rightarrow> string \<Rightarrow> jsval" where
  "getProp ps k = (case obj_get ps k of None \<Rightarrow> JUndefined | Some v \<Rightarrow> v)"

fun obj_set :: "obj \<Rightarrow> string \<Rightarrow> jsval \<Rightarrow> obj" where
  "obj_set [] k v = [(k, v)]"
| "obj_set ((k', v') # ps) k v =
     (if k' = k then (k, v) # ps else (k', v') # obj_set ps k v)"

text \<open>\<open>ToString\<close>, as a template literal applies it to an interpolated value. Numbers
  print in plain decimal, which is what the language does for the integers of
  magnitude below \<open>10\<^sup>2\<^sup>1\<close>.\<close>

definition digit_char :: "nat \<Rightarrow> char" where
  "digit_char d = char_of (of_char CHR ''0'' + d)"

fun decimal :: "nat \<Rightarrow> string" where
  "decimal n =
     (if n < 10 then [digit_char n] else decimal (n div 10) @ [digit_char (n mod 10)])"

declare decimal.simps [simp del]

fun toString :: "jsval \<Rightarrow> string" where
  "toString JUndefined = ''undefined''"
| "toString JNull = ''null''"
| "toString (JBool b) = (if b then ''true'' else ''false'')"
| "toString (JNum n) = (if n < 0 then CHR ''-'' # decimal (nat (- n)) else decimal (nat n))"
| "toString JNaN = ''NaN''"
| "toString (JStr s) = s"
| "toString (JObj ps) = ''[object Object]''"

section \<open>Built-in and library functions the client calls\<close>

subsection \<open>\<^verbatim>\<open>encodeURIComponent\<close>\<close>

text \<open>
  The built-in keeps the unreserved characters (letters, digits and
  \<^verbatim>\<open>- _ . ! ~ * ' ( )\<close>) and replaces every other code unit by the percent-escaped
  octets of its UTF-8 encoding, in upper-case hexadecimal. A code unit below 128 is one
  octet, one from 128 to 255 is two. The argument is converted with \<open>ToString\<close> first.
\<close>

definition uriUnreserved :: "char list" where
  "uriUnreserved =
     ''ABCDEFGHIJKLMNOPQRSTUVWXYZabcdefghijklmnopqrstuvwxyz0123456789-_.!~*()'' @ [CHR 0x27]"

definition hexDigit :: "nat \<Rightarrow> char" where
  "hexDigit n = ''0123456789ABCDEF'' ! (n mod 16)"

definition percentEscape :: "nat \<Rightarrow> string" where
  "percentEscape octet = [CHR ''%'', hexDigit (octet div 16), hexDigit (octet mod 16)]"

definition utf8Octets :: "nat \<Rightarrow> nat list" where
  "utf8Octets cp = (if cp < 128 then [cp] else [192 + cp div 64, 128 + cp mod 64])"

definition encodeUnit :: "char \<Rightarrow> string" where
  "encodeUnit c =
     (if c \<in> set uriUnreserved then [c]
      else concat (map percentEscape (utf8Octets (of_char c))))"

definition encodeURIComponent :: "jsval \<Rightarrow> string" where
  "encodeURIComponent v = concat (map encodeUnit (toString v))"

subsection \<open>\<^verbatim>\<open>merge\<close> of lodash\<close>

text \<open>
  \<^verbatim>\<open>merge(object, ...sources)\<close> is imported from lodash, which is not part of the
  repository; it is modelled from the library's documented behaviour and its
  implementation (\<^verbatim>\<open>createAssigner\<close>, \<^verbatim>\<open>baseMerge\<close>, \<^verbatim>\<open>baseMergeDeep\<close>,
  \<^verbatim>\<open>assignMergeValue\<close>) on the values above.

  \<^item> The sources are applied from left to right; a falsy source is skipped.
  \<^item> The keys of a source are visited once each, with the value the source has there.
    A string source is array-like: its keys are its indices and its values the
    one-character strings. The other scalars have no keys.
  \<^item> A source value that is a plain object is merged recursively into the destination's
    value when that is an object, and into a fresh object otherwise.
  \<^item> Any other source value is assigned, except that \<open>undefined\<close> is assigned only
    where the destination does not have the key.
\<close>

definition assignMergeValue :: "obj \<Rightarrow> string \<Rightarrow> jsval \<Rightarrow> obj" where
  "assignMergeValue object key v =
     (if (v \<noteq> JUndefined \<and> obj_get object key \<noteq> Some v)
         \<or> (v = JUndefined \<and> \<not> obj_has object key)
      then obj_set object key v else object)"

fun mergeTarget :: "jsval option \<Rightarrow> obj" where
  "mergeTarget (Some (JObj ps)) = ps"
| "mergeTarget v = []"

definition removeKey :: "string \<Rightarrow> obj \<Rightarrow> obj" where
  "removeKey k ps = filter (\<lambda>p. fst p \<noteq> k) ps"

function baseMerge :: "obj \<Rightarrow> obj \<Rightarrow> obj" where
  "baseMerge object [] = object"
| "baseMerge object ((key, srcValue) # rest) =
     baseMerge
       (case srcValue of
          JObj sprops \<Rightarrow>
            assignMergeValue object key
              (JObj (baseMerge (mergeTarget (obj_get object key)) sprops))
        | _ \<Rightarrow> assignMergeValue object key srcValue)
       (removeKey key rest)"
  by pat_completeness auto
termination
proof (relation "measure (\<lambda>(object, source). size_list (size_prod (\<lambda>_. 0) size) source)")
  show "wf (measure (\<lambda>(object, source). size_list (size_prod (\<lambda>_. 0) size) source))"
    by simp
next
  fix object :: obj and key srcValue rest sprops
  assume "srcValue = JObj sprops"
  then show "((mergeTarget (obj_get object key), sprops), (object, (key, srcValue) # rest))
      \<in> measure (\<lambda>(object, source). size_list (size_prod (\<lambda>_. 0) size) source)"
    by simp
next
  fix object :: obj and key srcValue rest
  have "size_list (size_prod (\<lambda>_. 0) size) (removeKey key rest)
      \<le> size_list (size_prod (\<lambda>_. 0) size) rest"
    by (induction rest) (auto simp: removeKey_def)
  then show "((case srcValue of
          JObj sprops \<Rightarrow>
            assignMergeValue object key
              (JObj (baseMerge (mergeTarget (obj_get object key)) sprops))
        | _ \<Rightarrow> assignMergeValue object key srcValue, removeKey key rest),
       (object, (key, srcValue) # rest))
      \<in> measure (\<lambda>(object, source). size_list (size_prod (\<lambda>_. 0) size) source)"
    by simp
qed

definition sourceProps :: "jsval \<Rightarrow> obj" where
  "sourceProps source =
     (case source of
        JObj ps \<Rightarrow> ps
      | JStr s \<Rightarrow> map (\<lambda>i. (decimal i, JStr [s ! i])) [0..<length s]
      | _ \<Rightarrow> [])"

definition merge :: "obj \<Rightarrow> jsval list \<Rightarrow> obj" where
  "merge object sources =
     foldl (\<lambda>object source.
              if truthy source then baseMerge object (sourceProps source) else object)
       object sources"

section \<open>The client\<close>

text \<open>
  What the module reads from outside: the variable \<^verbatim>\<open>COC_API_TOKEN\<close> of
  \<^verbatim>\<open>process.env\<close> (unset, or a string) and the \<^verbatim>\<open>uri\<close> exported by the module
  \<^verbatim>\<open>../config\<close>, which is not among the sources and is taken as a parameter.
\<close>

record environment =
  COC_API_TOKEN :: "string option"
  config_uri :: jsval

definition env_token :: "environment \<Rightarrow> jsval" where
  "env_token env = (case COC_API_TOKEN env of None \<Rightarrow> JUndefined | Some s \<Rightarrow> JStr s)"

text \<open>The three fields of an instance: \<^verbatim>\<open>this.token\<close>, \<^verbatim>\<open>this.uri\<close> and
  \<^verbatim>\<open>this._requestDefaults\<close>.\<close>

record client =
  token :: jsval
  uri :: jsval
  requestDefaults :: jsval

datatype error =
    Error string
  | ReferenceError string
  | TypeError string

definition missing_token_message :: string where
  "missing_token_message =
     ''Deve definir uma op'' @ [CHR 0xE7, CHR 0xE3] @ ''o de token ou vari'' @ [CHR 0xE1]
       @ ''vel de ambiente COC_API_TOKEN''"

text \<open>
  \<^verbatim>\<open>constructor({uri, token, request} = {})\<close>: the argument is an object or is left
  out (\<open>None\<close>); the three names are read from it, any other property is ignored.
\<close>

definition ClashApi :: "environment \<Rightarrow> obj option \<Rightarrow> error + client" where
  "ClashApi env config =
     (let params = (case config of None \<Rightarrow> [] | Some ps \<Rightarrow> ps);
          this = \<lparr> token = js_or (getProp params ''token'') (env_token env),
                   uri = js_or (getProp params ''uri'') (config_uri env),
                   requestDefaults = js_or (getProp params ''request'') (JObj []) \<rparr>
      in if \<not> truthy (token this) then Inl (Error missing_token_message) else Inr this)"

definition baseTemplate :: "client \<Rightarrow> obj" where
  "baseTemplate this =
     [(''headers'', JObj [(''Accept'', JStr ''application/json''),
                          (''authorization'', JStr (''Bearer '' @ toString (token this)))]),
      (''json'', JBool True)]"

definition requestOptions :: "client \<Rightarrow> jsval \<Rightarrow> jsval" where
  "requestOptions this opts = JObj (merge (baseTemplate this) [opts, requestDefaults this])"

section \<open>The methods\<close>

text \<open>
  The state a program using one client can observe: the client itself, the query
  objects \<^verbatim>\<open>qs\<close> of the clan-search builders made so far (a builder is the index of
  its \<^verbatim>\<open>qs\<close>), and the descriptors handed to the HTTP transport \<^verbatim>\<open>request\<close>, oldest
  first. The transport performs one GET for each descriptor it is given; the promise it
  returns is opaque and is not modelled.
\<close>

record state =
  self :: client
  builders :: "obj list"
  transport :: "jsval list"

definition request :: "jsval \<Rightarrow> state \<Rightarrow> state" where
  "request options s = s\<lparr>transport := transport s @ [options]\<rparr>"

text \<open>Each direct method builds one URI from \<^verbatim>\<open>this.uri\<close> and the encoded tag, and hands
  the options to the transport once.\<close>

definition clanByTag :: "jsval \<Rightarrow> state \<Rightarrow> state" where
  "clanByTag tag s =
     request (requestOptions (self s)
       (JObj [(''uri'',
               JStr (toString (uri (self s)) @ ''/clans/''
                @ encodeURIComponent tag))])) s"

definition clanMembersByTag :: "jsval \<Rightarrow> state \<Rightarrow> state" where
  "clanMembersByTag tag s =
     request (requestOptions (self s)
       (JObj [(''uri'',
               JStr (toString (uri (self s)) @ ''/clans/''
                @ encodeURIComponent tag
                @ ''/members''))])) s"

definition clanWarlogByTag :: "jsval \<Rightarrow> state \<Rightarrow> state" where
  "clanWarlogByTag tag s =
     request (requestOptions (self s)
       (JObj [(''uri'',
               JStr (toString (uri (self s)) @ ''/clans/''
                @ encodeURIComponent tag
                @ ''/warlog''))])) s"

definition clanCurrentWarByTag :: "jsval \<Rightarrow> state \<Rightarrow> state" where
  "clanCurrentWarByTag tag s =
     request (requestOptions (self s)
       (JObj [(''uri'',
               JStr (toString (uri (self s)) @ ''/clans/''
                @ encodeURIComponent tag
                @ ''/currentwar''))])) s"

definition clanLeague :: "jsval \<Rightarrow> state \<Rightarrow> state" where
  "clanLeague tag s =
     request (requestOptions (self s)
       (JObj [(''uri'',
               JStr (toString (uri (self s)) @ ''/clans/''
                @ encodeURIComponent tag
                @ ''/currentwar/leaguegroup''))])) s"

definition clanLeagueWars :: "jsval \<Rightarrow> state \<Rightarrow> state" where
  "clanLeagueWars tag s =
     request (requestOptions (self s)
       (JObj [(''uri'',
               JStr (toString (uri (self s)) @ ''/clanwarleagues/wars/''
                @ encodeURIComponent tag))])) s"

definition leagues :: "state \<Rightarrow> state" where
  "leagues s =
     request (requestOptions (self s)
       (JObj [(''uri'',
               JStr (toString (uri (self s)) @ ''/leagues''))])) s"

definition playerByTag :: "jsval \<Rightarrow> state \<Rightarrow> state" where
  "playerByTag tag s =
     request (requestOptions (self s)
       (JObj [(''uri'',
               JStr (toString (uri (self s)) @ ''/players/''
                @ encodeURIComponent tag))])) s"

subsection \<open>The clan-search builder\<close>

text \<open>
  \<^verbatim>\<open>capitalizeFirstLetter\<close> is \<^verbatim>\<open>charAt(0).toUpperCase() + substr(1)\<close>. It is applied
  to the ten field names only, so \<^verbatim>\<open>toUpperCase\<close> is modelled on the letters
  \<^verbatim>\<open>a\<close> to \<^verbatim>\<open>z\<close> and leaves every other code unit as it is.
\<close>

definition toUpperCase :: "string \<Rightarrow> string" where
  "toUpperCase s =
     map (\<lambda>c. if (97::nat) \<le> of_char c \<and> of_char c \<le> (122::nat)
             then char_of (of_char c - (32::nat)) else c) s"

definition capitalizeFirstLetter :: "string \<Rightarrow> string" where
  "capitalizeFirstLetter string = toUpperCase (take 1 string) @ drop 1 string"

definition dsl_fields :: "string list" where
  "dsl_fields =
     [''name'', ''warFrequency'', ''locationId'', ''minMembers'', ''maxMembers'',
      ''minClanPoints'', ''minClanLevel'', ''limit'', ''after'', ''before'']"

text \<open>The \<^verbatim>\<open>reduce\<close> gives the builder one method \<^verbatim>\<open>with<Field>\<close> for each field; the
  table maps the name of the method to the field it writes.\<close>

definition dsl_setters :: "(string \<times> string) list" where
  "dsl_setters = map (\<lambda>field. (''with'' @ capitalizeFirstLetter field, field)) dsl_fields"

text \<open>\<^verbatim>\<open>clans()\<close> allocates a fresh, empty \<^verbatim>\<open>qs\<close> and returns its builder.\<close>

definition clans :: "state \<Rightarrow> nat \<times> state" where
  "clans s = (length (builders s), s\<lparr>builders := builders s @ [[]]\<rparr>)"

text \<open>
  The builder that \<^verbatim>\<open>clans()\<close> returns has eleven properties of its own: \<^verbatim>\<open>fetch\<close>, from
  the object the \<^verbatim>\<open>reduce\<close> starts with, and the ten setters the \<^verbatim>\<open>reduce\<close> adds. Its
  \<^verbatim>\<open>fetch\<close> hands the options with the query object to the transport and returns the
  promise.
\<close>

definition dsl_fetch :: "nat \<Rightarrow> state \<Rightarrow> (error + unit) \<times> state" where
  "dsl_fetch builder s =
     (if builder < length (builders s) then
        (Inr (),
         request (requestOptions (self s)
           (JObj [(''qs'', JObj (builders s ! builder)),
                  (''uri'', JStr (toString (uri (self s)) @ ''/clans''))])) s)
      else (Inl (TypeError ''fetch is not a function''), s))"

text \<open>What a method of the builder returns: a builder, or the promise of the transport.\<close>

datatype dsl_value = Builder nat | Promise

text \<open>
  \<^verbatim>\<open>builder[name](input)\<close>, for the properties the builder has of its own. The name
  \<^verbatim>\<open>fetch\<close> is the builder's \<^verbatim>\<open>fetch\<close>, which takes no argument. A setter stores
  \<^verbatim>\<open>qs[field] = input\<close> and returns the builder it was called on. Any other name is
  looked up on the prototype of the builder, \<^verbatim>\<open>Object.prototype\<close>: what such a call
  returns or throws is not decided by this module and is left out of the model
  (\<open>None\<close>). A call on something that is not a builder is a \<^verbatim>\<open>TypeError\<close>.
\<close>

definition dsl_call ::
  "nat \<Rightarrow> string \<Rightarrow> jsval \<Rightarrow> state \<Rightarrow> ((error + dsl_value) \<times> state) option" where
  "dsl_call builder name input s =
     (if builder < length (builders s) then
        (if name = ''fetch'' then
           (case dsl_fetch builder s of
              (Inl e, s') \<Rightarrow> Some (Inl e, s')
            | (Inr u, s') \<Rightarrow> Some (Inr Promise, s'))
         else
           (case map_of dsl_setters name of
              Some field \<Rightarrow>
                Some (Inr (Builder builder),
                      s\<lparr>builders :=
                          (builders s)[builder := obj_set (builders s ! builder) field input]\<rparr>)
            | None \<Rightarrow> None))
      else Some (Inl (TypeError (name @ '' is not a function'')), s))"

text \<open>
  A chain \<^verbatim>\<open>builder.m1(v1). ... .mn(vn)\<close>: each method is called on what the one before
  returned, and a throw ends the chain. The chain is followed as long as it stays on a
  builder: a call on the promise that \<^verbatim>\<open>fetch\<close> returned is a call of the transport's
  object and is left out (\<open>None\<close>).
\<close>

fun dsl_chain ::
  "nat \<Rightarrow> (string \<times> jsval) list \<Rightarrow> state \<Rightarrow> ((error + dsl_value) \<times> state) option" where
  "dsl_chain builder [] s = Some (Inr (Builder builder), s)"
| "dsl_chain builder ((name, input) # calls) s =
     (case dsl_call builder name input s of
        None \<Rightarrow> None
      | Some (Inl e, s') \<Rightarrow> Some (Inl e, s')
      | Some (Inr (Builder builder'), s') \<Rightarrow> dsl_chain builder' calls s'
      | Some (Inr Promise, s') \<Rightarrow> (if calls = [] then Some (Inr Promise, s') else None))"

text \<open>The chain \<^verbatim>\<open>clans().m1(v1). ... .mn(vn).fetch()\<close>.\<close>

definition clans_chain_fetch ::
  "(string \<times> jsval) list \<Rightarrow> state \<Rightarrow> ((error + dsl_value) \<times> state) option" where
  "clans_chain_fetch calls s =
     (case clans s of
        (builder, s1) \<Rightarrow> dsl_chain builder (calls @ [(''fetch'', JUndefined)]) s1)"

subsection \<open>The location builder\<close>

text \<open>
  The identifiers the module binds (its three imports and its own declarations) and the
  globals it uses. An identifier that is neither cannot be resolved, and evaluating it
  throws a \<^verbatim>\<open>ReferenceError\<close>.
\<close>

definition module_scope :: "string list" where
  "module_scope =
     [''request'', ''config'', ''merge'', ''env'', ''capitalizeFirstLetter'', ''ClashApi'',
      ''factory'']"

definition global_scope :: "string list" where
  "global_scope = [''process'', ''encodeURIComponent'', ''Error'', ''module'']"

definition resolve_name :: "string \<Rightarrow> error + unit" where
  "resolve_name name =
     (if name \<in> set module_scope \<or> name \<in> set global_scope then Inr ()
      else Inl (ReferenceError (name @ '' is not defined'')))"

definition locations_fetch :: "state \<Rightarrow> state" where
  "locations_fetch s =
     request (requestOptions (self s)
       (JObj [(''uri'', JStr (toString (uri (self s)) @ ''/locations''))])) s"

text \<open>
  \<^verbatim>\<open>withId(locId)\<close> builds its two objects with \<^verbatim>\<open>assign(...)\<close>; the callee is
  evaluated first. Both objects close over the same two variables: \<^verbatim>\<open>locId\<close>, and
  \<^verbatim>\<open>rankId\<close>, which is unset until a selector writes it. The selectors \<^verbatim>\<open>byClan\<close> and
  \<^verbatim>\<open>byPlayer\<close> are members of both objects and return the third-level one.
\<close>

datatype withId_scope = WithIdScope jsval "string option"

definition locations_withId :: "jsval \<Rightarrow> state \<Rightarrow> error + withId_scope" where
  "locations_withId locId s =
     (case resolve_name ''assign'' of
        Inl e \<Rightarrow> Inl e
      | Inr _ \<Rightarrow> Inr (WithIdScope locId None))"

fun byClan :: "withId_scope \<Rightarrow> withId_scope" where
  "byClan (WithIdScope locId rankId) = WithIdScope locId (Some ''clans'')"

fun byPlayer :: "withId_scope \<Rightarrow> withId_scope" where
  "byPlayer (WithIdScope locId rankId) = WithIdScope locId (Some ''players'')"

fun rankingDsl_fetch :: "withId_scope \<Rightarrow> state \<Rightarrow> state" where
  "rankingDsl_fetch (WithIdScope locId rankId) s =
     request (requestOptions (self s)
       (JObj [(''uri'',
               JStr (toString (uri (self s)) @ ''/locations/''
                @ encodeURIComponent locId @ ''/rankings/''
                @ (case rankId of None \<Rightarrow> ''undefined'' | Some r \<Rightarrow> r)))])) s"

text \<open>
  The \<^verbatim>\<open>fetch\<close> of the second-level object is the one function of the builder that is
  not bound to the client. Called as \<^verbatim>\<open>locDsl.fetch()\<close>, its \<^verbatim>\<open>this\<close> is the object
  \<^verbatim>\<open>locDsl\<close>, whose properties are \<^verbatim>\<open>fetch\<close>, \<^verbatim>\<open>byClan\<close> and \<^verbatim>\<open>byPlayer\<close>:
  \<^verbatim>\<open>this.requestOptions\<close> is \<open>undefined\<close> and calling it throws.
\<close>

fun locDsl_fetch :: "withId_scope \<Rightarrow> state \<Rightarrow> (error + unit) \<times> state" where
  "locDsl_fetch (WithIdScope locId rankId) s =
     (Inl (TypeError ''this.requestOptions is not a function''), s)"

text \<open>The three chains that start with \<^verbatim>\<open>locations().withId(locId)\<close>.\<close>

definition withId_fetch :: "jsval \<Rightarrow> state \<Rightarrow> (error + unit) \<times> state" where
  "withId_fetch locId s =
     (case locations_withId locId s of
        Inl e \<Rightarrow> (Inl e, s)
      | Inr dsl \<Rightarrow> locDsl_fetch dsl s)"

definition withId_byClan_fetch :: "jsval \<Rightarrow> state \<Rightarrow> (error + unit) \<times> state" where
  "withId_byClan_fetch locId s =
     (case locations_withId locId s of
        Inl e \<Rightarrow> (Inl e, s)
      | Inr dsl \<Rightarrow> (Inr (), rankingDsl_fetch (byClan dsl) s))"

definition withId_byPlayer_fetch :: "jsval \<Rightarrow> state \<Rightarrow> (error + unit) \<times> state" where
  "withId_byPlayer_fetch locId s =
     (case locations_withId locId s of
        Inl e \<Rightarrow> (Inl e, s)
      | Inr dsl \<Rightarrow> (Inr (), rankingDsl_fetch (byPlayer dsl) s))"

subsection \<open>Programs over one client\<close>

text \<open>
  Every call the public surface offers, and a program as a list of calls run in order.
  A call that throws leaves the state as it was at the throw, and the program goes on.
  A call of the builder by a name that is not a property of its own is answered by
  \<^verbatim>\<open>Object.prototype\<close>, or throws when the name is nowhere: either way it reaches
  neither a query object nor the transport, and the state stays as it is.
\<close>

datatype call =
    ClanByTag jsval
  | ClanMembersByTag jsval
  | ClanWarlogByTag jsval
  | ClanCurrentWarByTag jsval
  | ClanLeague jsval
  | ClanLeagueWars jsval
  | Clans
  | DslCall nat string jsval
  | DslFetch nat
  | LocationsFetch
  | WithId jsval
  | WithIdFetch jsval
  | WithIdByClanFetch jsval
  | WithIdByPlayerFetch jsval
  | Leagues
  | PlayerByTag jsval

fun exec :: "call \<Rightarrow> state \<Rightarrow> state" where
  "exec (ClanByTag tag) s = clanByTag tag s"
| "exec (ClanMembersByTag tag) s = clanMembersByTag tag s"
| "exec (ClanWarlogByTag tag) s = clanWarlogByTag tag s"
| "exec (ClanCurrentWarByTag tag) s = clanCurrentWarByTag tag s"
| "exec (ClanLeague tag) s = clanLeague tag s"
| "exec (ClanLeagueWars tag) s = clanLeagueWars tag s"
| "exec Clans s = snd (clans s)"
| "exec (DslCall builder name input) s =
     (case dsl_call builder name input s of None \<Rightarrow> s | Some (r, s') \<Rightarrow> s')"
| "exec (DslFetch builder) s = snd (dsl_fetch builder s)"
| "exec LocationsFetch s = locations_fetch s"
| "exec (WithId locId) s = s"
| "exec (WithIdFetch locId) s = snd (withId_fetch locId s)"
| "exec (WithIdByClanFetch locId) s = snd (withId_byClan_fetch locId s)"
| "exec (WithIdByPlayerFetch locId) s = snd (withId_byPlayer_fetch locId s)"
| "exec Leagues s = leagues s"
| "exec (PlayerByTag tag) s = playerByTag tag s"

definition run :: "call list \<Rightarrow> state \<Rightarrow> state" where
  "run calls s = fold exec calls s"

definition started :: "client \<Rightarrow> state" where
  "started this = \<lparr> self = this, builders = [], transport = [] \<rparr>"

section \<open>Reading a merged object\<close>

text \<open>
  The value found by following a path of keys from a value; \<open>None\<close> when a key on the
  way is absent or the value reached there is not an object.
\<close>

fun get_path :: "jsval \<Rightarrow> string list \<Rightarrow> jsval option" where
  "get_path v [] = Some v"
| "get_path (JObj ps) (k # ks) =
     (case obj_get ps k of None \<Rightarrow> None | Some v \<Rightarrow> get_path v ks)"
| "get_path v (k # ks) = None"

text \<open>A leaf is a value that a merge assigns as it is: anything but \<open>undefined\<close> and
  an object.\<close>

fun leaf :: "jsval \<Rightarrow> bool" where
  "leaf JUndefined = False"
| "leaf (JObj ps) = False"
| "leaf v = True"

text \<open>
  A source sets something on a path when, following the path, it has a leaf before the
  end or any value but \<open>undefined\<close> at the end. A source that sets nothing on a path
  leaves the destination's value there alone.
\<close>

fun sets_on :: "obj \<Rightarrow> string list \<Rightarrow> bool" where
  "sets_on src [] = False"
| "sets_on src (k # ks) =
     (case obj_get src k of
        None \<Rightarrow> False
      | Some JUndefined \<Rightarrow> False
      | Some (JObj sp) \<Rightarrow> ks = [] \<or> sets_on sp ks
      | Some v \<Rightarrow> True)"

text \<open>The value a key has after a source value was merged into what the destination
  had there (\<open>None\<close>: the key was absent).\<close>

fun mergedValue :: "jsval option \<Rightarrow> jsval \<Rightarrow> jsval" where
  "mergedValue None JUndefined = JUndefined"
| "mergedValue (Some x) JUndefined = x"
| "mergedValue ov (JObj sp) = JObj (baseMerge (mergeTarget ov) sp)"
| "mergedValue ov v = v"

text \<open>The header an HTTP message carries under a name: header names are compared
  without regard to case, and the first match in the \<^verbatim>\<open>headers\<close> object is taken.\<close>

definition toLowerCase :: "string \<Rightarrow> string" where
  "toLowerCase s =
     map (\<lambda>c. if (65::nat) \<le> of_char c \<and> of_char c \<le> (90::nat)
             then char_of (of_char c + (32::nat)) else c) s"

definition header :: "jsval \<Rightarrow> string \<Rightarrow> jsval option" where
  "header options name =
     (case get_path options [''headers''] of
        Some (JObj hs) \<Rightarrow> map_of (map (\<lambda>(k, v). (toLowerCase k, v)) hs) (toLowerCase name)
      | _ \<Rightarrow> None)"

text \<open>The method of the HTTP request that the transport makes for a descriptor: the
  library \<^verbatim>\<open>request\<close> takes \<^verbatim>\<open>options.method || 'GET'\<close>. No method of the client
  names one, so a request is a GET unless the defaults of the client say otherwise.\<close>

definition http_method :: "jsval \<Rightarrow> string" where
  "http_method options =
     (case options of
        JObj ps \<Rightarrow> toString (js_or (getProp ps ''method'') (JStr ''GET''))
      | _ \<Rightarrow> ''GET'')"

text \<open>The token the caller passes to the constructor, \<open>undefined\<close> when there is no
  configuration object or it has no \<^verbatim>\<open>token\<close>.\<close>

definition explicit_token :: "obj option \<Rightarrow> jsval" where
  "explicit_token config = (case config of None \<Rightarrow> JUndefined | Some ps \<Rightarrow> getProp ps ''token'')"

text \<open>A property of the configuration object, \<open>undefined\<close> when there is no object
  or it has no such property.\<close>

definition config_field :: "obj option \<Rightarrow> string \<Rightarrow> jsval" where
  "config_field config k = (case config of None \<Rightarrow> JUndefined | Some ps \<Rightarrow> getProp ps k)"

text \<open>The descriptors the transport received between an earlier state and a later one.\<close>

definition issued :: "state \<Rightarrow> state \<Rightarrow> jsval list" where
  "issued s s' = drop (length (transport s)) (transport s')"

text \<open>What a call of the builder, or a chain of them, is seen to do from a state: what it
  returned or threw, and the descriptors it handed to the transport.\<close>

definition outcome :: "state \<Rightarrow> ('a \<times> state) option \<Rightarrow> ('a \<times> jsval list) option" where
  "outcome s result = (case result of None \<Rightarrow> None | Some (r, s') \<Rightarrow> Some (r, issued s s'))"

text \<open>The query object that a chain of setter calls leaves behind, starting from a
  given one: each call writes its field, in order.\<close>

fun recorded :: "(string \<times> jsval) list \<Rightarrow> obj \<Rightarrow> obj" where
  "recorded [] qs = qs"
| "recorded ((name, input) # calls) qs =
     (case map_of dsl_setters name of
        None \<Rightarrow> qs
      | Some field \<Rightarrow> recorded calls (obj_set qs field input))"

section \<open>Example inputs\<close>

text \<open>A client whose defaults set the authorization header, and per-call options that
  set the same header and one more.\<close>

definition witness_client :: client where
  "witness_client =
     \<lparr> token = JStr ''t'', uri = JStr ''https://api'',
       requestDefaults = JObj [(''headers'', JObj [(''authorization'', JStr ''D'')])] \<rparr>"

definition witness_opts :: jsval where
  "witness_opts =
     JObj [(''headers'', JObj [(''authorization'', JStr ''O''),
                               (''Accept'', JStr ''text/plain'')])]"

text \<open>An environment that supplies the token, the client it gives with no configuration
  object, and a program that uses every kind of call.\<close>

definition witness_env :: environment where
  "witness_env = \<lparr> COC_API_TOKEN = Some ''secret'', config_uri = JStr ''https://api'' \<rparr>"

definition env_client :: client where
  "env_client = \<lparr> token = JStr ''secret'', uri = JStr ''https://api'', requestDefaults = JObj [] \<rparr>"

definition witness_calls :: "call list" where
  "witness_calls =
     [ClanByTag (JStr ''#ABC123''), Clans, DslCall 0 ''withMinMembers'' (JNum 10),
      DslCall 0 ''withMinMembers'' (JNum 20), DslFetch 0, WithIdByPlayerFetch (JStr ''L1''),
      LocationsFetch, Leagues, PlayerByTag (JStr ''#ABC123'')]"

text \<open>The client made from the configuration
  \<^verbatim>\<open>{token: 't', request: {json: false}}\<close>.\<close>

definition request_client :: client where
  "request_client =
     \<lparr> token = JStr ''t'', uri = JStr ''https://api'',
       requestDefaults = JObj [(''json'', JBool False)] \<rparr>"

text \<open>The clients made from the configurations
  \<^verbatim>\<open>{token: 't', request: {uri: 'https://other/'}}\<close> and
  \<^verbatim>\<open>{token: 't', request: {qs: {minMembers: 5}}}\<close>.\<close>

definition uri_override_client :: client where
  "uri_override_client =
     \<lparr> token = JStr ''t'', uri = JStr ''https://api'',
       requestDefaults = JObj [(''uri'', JStr ''https://other/'')] \<rparr>"

definition qs_override_client :: client where
  "qs_override_client =
     \<lparr> token = JStr ''t'', uri = JStr ''https://api'',
       requestDefaults = JObj [(''qs'', JObj [(''minMembers'', JNum 5)])] \<rparr>"

section \<open>Properties of the merge\<close>

lemma obj_get_obj_set:
  "obj_get (obj_set ps k v) k' = (if k' = k then Some v else obj_get ps k')"
  by (induction ps) (auto simp: obj_get_def)

lemma obj_has_iff: "obj_has ps k \<longleftrightarrow> obj_get ps k \<noteq> None"
  by (simp add: obj_has_def obj_get_def map_of_eq_None_iff)

lemma obj_get_assignMergeValue:
  "obj_get (assignMergeValue object key v) k =
     (if k = key
      then (if v = JUndefined
            then (case obj_get object key of None \<Rightarrow> Some JUndefined | Some x \<Rightarrow> Some x)
            else Some v)
      else obj_get object k)"
  by (cases "obj_get object key")
     (auto simp: assignMergeValue_def obj_get_obj_set obj_has_iff)

lemma obj_get_removeKey:
  "obj_get (removeKey key ps) k = (if k = key then None else obj_get ps k)"
  by (induction ps) (auto simp: removeKey_def obj_get_def)

lemma obj_get_Cons:
  "obj_get ((key, v) # rest) k = (if k = key then Some v else obj_get rest k)"
  by (simp add: obj_get_def)

lemma obj_get_baseMerge:
  "obj_get (baseMerge object src) k =
     (case obj_get src k of
        None \<Rightarrow> obj_get object k
      | Some v \<Rightarrow> Some (mergedValue (obj_get object k) v))"
proof (induction object src arbitrary: k rule: baseMerge.induct)
  case (1 object)
  show ?case by (simp add: obj_get_def)
next
  case (2 object key srcValue rest)
  define object' where "object' =
      (case srcValue of
          JObj sprops \<Rightarrow>
            assignMergeValue object key
              (JObj (baseMerge (mergeTarget (obj_get object key)) sprops))
        | _ \<Rightarrow> assignMergeValue object key srcValue)"
  have step: "obj_get object' k' =
      (if k' = key then Some (mergedValue (obj_get object key) srcValue) else obj_get object k')"
    for k'
    unfolding object'_def
    by (cases srcValue; cases "obj_get object key")
       (simp_all add: obj_get_assignMergeValue)
  have "obj_get (baseMerge object ((key, srcValue) # rest)) k
      = obj_get (baseMerge object' (removeKey key rest)) k"
    by (simp add: object'_def)
  also have "\<dots> = (case obj_get (removeKey key rest) k of
        None \<Rightarrow> obj_get object' k
      | Some v \<Rightarrow> Some (mergedValue (obj_get object' k) v))"
    unfolding object'_def by (rule "2.IH"(2))
  also have "\<dots> = (case obj_get ((key, srcValue) # rest) k of
        None \<Rightarrow> obj_get object k
      | Some v \<Rightarrow> Some (mergedValue (obj_get object k) v))"
    by (simp add: obj_get_removeKey obj_get_Cons step split: option.splits)
  finally show ?case .
qed

lemma get_path_JObj_Cons:
  "get_path (JObj ps) (k # ks) = (case obj_get ps k of None \<Rightarrow> None | Some v \<Rightarrow> get_path v ks)"
  by simp

lemma get_path_leaf_nonempty:
  "get_path v (k # ks) = Some w \<Longrightarrow> \<exists>ps. v = JObj ps"
  by (cases v) simp_all

lemma baseMerge_wins:
  "p \<noteq> [] \<Longrightarrow> get_path (JObj src) p = Some v \<Longrightarrow> leaf v \<Longrightarrow>
   get_path (JObj (baseMerge object src)) p = Some v"
proof (induction p arbitrary: object src)
  case Nil
  then show ?case by simp
next
  case (Cons k ks)
  from Cons.prems(2) obtain w where w: "obj_get src k = Some w" and rest: "get_path w ks = Some v"
    by (auto split: option.splits)
  show ?case
  proof (cases ks)
    case Nil
    with rest have "w = v" by simp
    with w Cons.prems(3) show ?thesis
      by (cases v) (simp_all add: Nil obj_get_baseMerge)
  next
    case (Cons k' ks')
    with rest obtain sp where sp: "w = JObj sp"
      using get_path_leaf_nonempty by blast
    have "get_path (JObj (baseMerge (mergeTarget (obj_get object k)) sp)) ks = Some v"
      using Cons.IH[of sp] rest Cons.prems(3) sp Cons by simp
    with w sp show ?thesis
      by (simp add: obj_get_baseMerge)
  qed
qed

lemma baseMerge_keeps:
  "p \<noteq> [] \<Longrightarrow> get_path (JObj object) p = Some v \<Longrightarrow> \<not> sets_on src p \<Longrightarrow>
   get_path (JObj (baseMerge object src)) p = Some v"
proof (induction p arbitrary: object src)
  case Nil
  then show ?case by simp
next
  case (Cons k ks)
  from Cons.prems(2) obtain w where w: "obj_get object k = Some w" and rest: "get_path w ks = Some v"
    by (auto split: option.splits)
  show ?case
  proof (cases "obj_get src k")
    case None
    with w rest show ?thesis by (simp add: obj_get_baseMerge)
  next
    case (Some sv)
    show ?thesis
    proof (cases sv)
      case JUndefined
      with Some w rest show ?thesis by (simp add: obj_get_baseMerge)
    next
      case (JObj sp)
      with Some Cons.prems(3) have ks: "ks \<noteq> []" and ns: "\<not> sets_on sp ks"
        by simp_all
      from ks rest obtain op where op: "w = JObj op"
        using get_path_leaf_nonempty by (cases ks) blast+
      have "get_path (JObj (baseMerge op sp)) ks = Some v"
        using Cons.IH[OF ks _ ns, of op] rest op by simp
      with Some JObj w op show ?thesis
        by (simp add: obj_get_baseMerge)
    qed (use Some Cons.prems(3) in simp_all)
  qed
qed

lemma sourceProps_falsy: "\<not> truthy source \<Longrightarrow> sourceProps source = []"
  by (cases source) (simp_all add: sourceProps_def)

lemma merge_two:
  "merge object [a, b] = baseMerge (baseMerge object (sourceProps a)) (sourceProps b)"
  by (simp add: merge_def sourceProps_falsy)

lemma leaf_path_nonempty: "get_path (JObj ps) p = Some v \<Longrightarrow> leaf v \<Longrightarrow> p \<noteq> []"
  by (cases p) auto

section \<open>Properties of the constructor\<close>

lemma truthy_env_token:
  "truthy (env_token env) \<longleftrightarrow> (\<exists>t. COC_API_TOKEN env = Some t \<and> t \<noteq> [])"
  by (cases "COC_API_TOKEN env") (simp_all add: env_token_def)

lemma ClashApi_token:
  "ClashApi env config =
     (if truthy (explicit_token config) \<or> truthy (env_token env)
      then Inr \<lparr> token = js_or (explicit_token config) (env_token env),
                 uri = js_or (getProp (case config of None \<Rightarrow> [] | Some ps \<Rightarrow> ps) ''uri'')
                         (config_uri env),
                 requestDefaults =
                   js_or (getProp (case config of None \<Rightarrow> [] | Some ps \<Rightarrow> ps) ''request'')
                         (JObj []) \<rparr>
      else Inl (Error missing_token_message))"
  by (cases config) (auto simp: ClashApi_def explicit_token_def js_or_def Let_def getProp_def obj_get_def)

lemma getProp_obj_set: "getProp (obj_set ps k v) k' = (if k' = k then v else getProp ps k')"
  by (simp add: getProp_def obj_get_obj_set)

lemma getProp_removeKey:
  "getProp (removeKey key ps) k = (if k = key then JUndefined else getProp ps k)"
  by (simp add: getProp_def obj_get_removeKey)

section \<open>Properties of the methods\<close>

lemma request_self [simp]: "self (request options s) = self s"
  by (simp add: request_def)

lemma request_builders [simp]: "builders (request options s) = builders s"
  by (simp add: request_def)

lemma request_transport [simp]: "transport (request options s) = transport s @ [options]"
  by (simp add: request_def)

lemma issued_request [simp]: "issued s (request options s) = [options]"
  by (simp add: issued_def)

lemma locations_withId_throws:
  "locations_withId locId s = Inl (ReferenceError ''assign is not defined'')"
  by (simp add: locations_withId_def resolve_name_def module_scope_def global_scope_def)

lemma obj_get_Nil [simp]: "obj_get [] k = None"
  by (simp add: obj_get_def)

lemma requestOptions_plainI:
  "obj_get ps ''headers'' = None \<Longrightarrow>
   \<exists>ps'. requestOptions c (JObj ps) = requestOptions c (JObj ps') \<and> obj_get ps' ''headers'' = None"
  by blast

lemma exec_effect:
  "self (exec call s) = self s \<and>
   (transport (exec call s) = transport s \<or>
    (\<exists>ps. transport (exec call s) = transport s @ [requestOptions (self s) (JObj ps)]
          \<and> obj_get ps ''headers'' = None))"
proof (cases call)
  case (DslCall b name input)
  then show ?thesis
    by (auto simp: dsl_call_def dsl_fetch_def split: option.splits intro!: requestOptions_plainI)
       (simp_all add: obj_get_Cons)
next
  case (DslFetch b)
  then show ?thesis
    by (auto simp: dsl_fetch_def intro!: requestOptions_plainI) (simp add: obj_get_def)
next
  case Clans
  then show ?thesis by (simp add: clans_def)
qed (auto simp: clanByTag_def clanMembersByTag_def clanWarlogByTag_def
       clanCurrentWarByTag_def clanLeague_def clanLeagueWars_def leagues_def playerByTag_def
       locations_fetch_def withId_fetch_def withId_byClan_fetch_def withId_byPlayer_fetch_def
       locations_withId_throws obj_get_Cons intro!: requestOptions_plainI)

lemma run_Cons: "run (call # calls) s = run calls (exec call s)"
  by (simp add: run_def)

lemma run_self: "self (run calls s) = self s"
  by (induction calls arbitrary: s) (simp_all add: run_def exec_effect)

lemma run_requests:
  "r \<in> set (transport (run calls s)) \<Longrightarrow>
   r \<in> set (transport s) \<or>
   (\<exists>ps. r = requestOptions (self s) (JObj ps) \<and> obj_get ps ''headers'' = None)"
proof (induction calls arbitrary: s)
  case Nil
  then show ?case by (simp add: run_def)
next
  case (Cons call calls)
  from Cons.prems have "r \<in> set (transport (run calls (exec call s)))"
    by (simp add: run_Cons)
  then have "r \<in> set (transport (exec call s)) \<or>
      (\<exists>ps. r = requestOptions (self (exec call s)) (JObj ps) \<and> obj_get ps ''headers'' = None)"
    by (rule Cons.IH)
  then show ?case
    using exec_effect[of call s] by auto
qed

lemma sets_on_Nil [simp]: "\<not> sets_on [] p"
  by (cases p) simp_all

lemma sets_on_absent: "obj_get src k = None \<Longrightarrow> \<not> sets_on src (k # ks)"
  by simp

lemma sourceProps_JObj [simp]: "sourceProps (JObj ps) = ps"
  by (simp add: sourceProps_def)

lemma requestOptions_keeps_base:
  assumes "get_path (JObj (baseTemplate this)) p = Some v" and "p \<noteq> []"
    and "\<not> sets_on (sourceProps opts) p" and "\<not> sets_on (sourceProps (requestDefaults this)) p"
  shows "get_path (requestOptions this opts) p = Some v"
proof -
  from assms(2,1,3) have "get_path (JObj (baseMerge (baseTemplate this) (sourceProps opts))) p = Some v"
    by (rule baseMerge_keeps)
  with assms(2) have "get_path (JObj (baseMerge (baseMerge (baseTemplate this) (sourceProps opts))
      (sourceProps (requestDefaults this)))) p = Some v"
    using assms(4) by (rule baseMerge_keeps)
  then show ?thesis by (simp add: requestOptions_def merge_two)
qed

lemma requestOptions_keeps_opts:
  assumes "get_path (JObj (sourceProps opts)) p = Some v" and "leaf v"
    and "\<not> sets_on (sourceProps (requestDefaults this)) p"
  shows "get_path (requestOptions this opts) p = Some v"
proof -
  from assms(1,2) have ne: "p \<noteq> []" by (rule leaf_path_nonempty)
  from ne assms(1,2) have "get_path (JObj (baseMerge (baseTemplate this) (sourceProps opts))) p = Some v"
    by (rule baseMerge_wins)
  with ne have "get_path (JObj (baseMerge (baseMerge (baseTemplate this) (sourceProps opts))
      (sourceProps (requestDefaults this)))) p = Some v"
    using assms(3) by (rule baseMerge_keeps)
  then show ?thesis by (simp add: requestOptions_def merge_two)
qed

lemma requestOptions_defaults_win:
  assumes "get_path (JObj (sourceProps (requestDefaults this))) p = Some v" and "leaf v"
  shows "get_path (requestOptions this opts) p = Some v"
proof -
  from assms have ne: "p \<noteq> []" by (rule leaf_path_nonempty)
  from ne assms show ?thesis
    by (simp add: requestOptions_def merge_two baseMerge_wins)
qed

lemma toLowerCase_names:
  "toLowerCase ''Authorization'' = ''authorization''"
  "toLowerCase ''authorization'' = ''authorization''"
  "toLowerCase ''Accept'' = ''accept''"
  by code_simp+

lemma plain_request_headers:
  assumes "requestDefaults this = JObj []" and "obj_get ps ''headers'' = None"
  shows "get_path (requestOptions this (JObj ps)) [''headers''] =
           Some (JObj [(''Accept'', JStr ''application/json''),
                       (''authorization'', JStr (''Bearer '' @ toString (token this)))])"
proof (rule requestOptions_keeps_base)
  show "get_path (JObj (baseTemplate this)) [''headers''] =
           Some (JObj [(''Accept'', JStr ''application/json''),
                       (''authorization'', JStr (''Bearer '' @ toString (token this)))])"
    by (simp add: baseTemplate_def obj_get_Cons)
  show "\<not> sets_on (sourceProps (JObj ps)) [''headers'']"
    using assms(2) by simp
  show "\<not> sets_on (sourceProps (requestDefaults this)) [''headers'']"
    using assms(1) by simp
qed simp

lemma plain_request_authorization:
  assumes "requestDefaults this = JObj []" and "obj_get ps ''headers'' = None"
  shows "header (requestOptions this (JObj ps)) ''Authorization'' =
           Some (JStr (''Bearer '' @ toString (token this)))"
    and "get_path (requestOptions this (JObj ps)) [''headers'', ''authorization''] =
           Some (JStr (''Bearer '' @ toString (token this)))"
proof -
  note h = plain_request_headers [OF assms]
  show "header (requestOptions this (JObj ps)) ''Authorization'' =
           Some (JStr (''Bearer '' @ toString (token this)))"
    by (simp add: header_def h toLowerCase_names)
  obtain rs where rs: "requestOptions this (JObj ps) = JObj rs"
    by (simp add: requestOptions_def)
  with h have "obj_get rs ''headers'' = Some (JObj [(''Accept'', JStr ''application/json''),
                       (''authorization'', JStr (''Bearer '' @ toString (token this)))])"
    by (simp split: option.splits)
  then show "get_path (requestOptions this (JObj ps)) [''headers'', ''authorization''] =
           Some (JStr (''Bearer '' @ toString (token this)))"
    by (simp add: rs obj_get_Cons)
qed

lemma ClashApi_fields:
  "ClashApi env config = Inr this \<Longrightarrow>
   token this = js_or (explicit_token config) (env_token env)
   \<and> uri this = js_or (config_field config ''uri'') (config_uri env)
   \<and> requestDefaults this = js_or (config_field config ''request'') (JObj [])"
  by (cases config)
     (auto simp: ClashApi_token config_field_def getProp_def split: if_splits)

section \<open>Properties of the encoding\<close>

lemma hexDigit_unreserved: "hexDigit n \<in> set uriUnreserved"
proof -
  have "n mod 16 < length ''0123456789ABCDEF''" by simp
  then have "hexDigit n \<in> set ''0123456789ABCDEF''"
    unfolding hexDigit_def by (rule nth_mem)
  also have "set ''0123456789ABCDEF'' \<subseteq> set uriUnreserved"
    by (simp add: uriUnreserved_def)
  finally show ?thesis .
qed

lemma percentEscape_chars: "set (percentEscape n) \<subseteq> set uriUnreserved \<union> {CHR ''%''}"
  by (simp add: percentEscape_def hexDigit_unreserved)

lemma encodeUnit_chars: "set (encodeUnit c) \<subseteq> set uriUnreserved \<union> {CHR ''%''}"
  using percentEscape_chars by (auto simp: encodeUnit_def)

lemma encodeURIComponent_chars:
  "set (encodeURIComponent v) \<subseteq> set uriUnreserved \<union> {CHR ''%''}"
  using encodeUnit_chars by (auto simp: encodeURIComponent_def)

lemma encodeURIComponent_no_hash: "CHR ''#'' \<notin> set (encodeURIComponent v)"
proof -
  have "CHR ''#'' \<notin> set uriUnreserved \<union> {CHR ''%''}"
    by (simp add: uriUnreserved_def)
  with encodeURIComponent_chars[of v] show ?thesis by blast
qed

lemma encodeURIComponent_example: "encodeURIComponent (JStr ''#ABC123'') = ''%23ABC123''"
  by code_simp

lemma uri_request:
  assumes "\<not> sets_on (sourceProps (requestDefaults (self s))) [''uri'']"
  shows "get_path (requestOptions (self s) (JObj [(''uri'', JStr u)])) [''uri''] = Some (JStr u)"
proof (rule requestOptions_keeps_opts)
  show "get_path (JObj (sourceProps (JObj [(''uri'', JStr u)]))) [''uri''] = Some (JStr u)"
    by (simp add: obj_get_Cons)
  show "leaf (JStr u)" by simp
  show "\<not> sets_on (sourceProps (requestDefaults (self s))) [''uri'']" by (rule assms)
qed

section \<open>Properties of the clan-search builder\<close>

lemma dsl_setters_eq:
  "dsl_setters =
     [(''withName'', ''name''), (''withWarFrequency'', ''warFrequency''),
      (''withLocationId'', ''locationId''), (''withMinMembers'', ''minMembers''),
      (''withMaxMembers'', ''maxMembers''), (''withMinClanPoints'', ''minClanPoints''),
      (''withMinClanLevel'', ''minClanLevel''), (''withLimit'', ''limit''),
      (''withAfter'', ''after''), (''withBefore'', ''before'')]"
  by code_simp

lemma setter_of_field:
  "field \<in> set dsl_fields \<Longrightarrow>
   map_of dsl_setters (''with'' @ capitalizeFirstLetter field) = Some field"
proof -
  have "list_all (\<lambda>field. map_of dsl_setters (''with'' @ capitalizeFirstLetter field) = Some field)
          dsl_fields"
    by code_simp
  then show "field \<in> set dsl_fields \<Longrightarrow> ?thesis"
    by (simp add: list_all_iff)
qed

lemma fetch_is_no_setter: "map_of dsl_setters ''fetch'' = None"
  by (simp add: dsl_setters_eq)

lemma obj_set_twice: "obj_set (obj_set qs k v1) k v2 = obj_set qs k v2"
  by (induction qs) auto

lemma dsl_call_setter:
  "map_of dsl_setters name = Some field \<Longrightarrow> builder < length (builders s) \<Longrightarrow>
   dsl_call builder name input s =
     Some (Inr (Builder builder),
           s\<lparr>builders := (builders s)[builder := obj_set (builders s ! builder) field input]\<rparr>)"
  using fetch_is_no_setter by (auto simp: dsl_call_def)

lemma dsl_call_fetch:
  "builder < length (builders s) \<Longrightarrow>
   dsl_call builder ''fetch'' input s =
     Some (Inr Promise,
           request (requestOptions (self s)
             (JObj [(''qs'', JObj (builders s ! builder)),
                    (''uri'', JStr (toString (uri (self s)) @ ''/clans''))])) s)"
  by (simp add: dsl_call_def dsl_fetch_def)

lemma dsl_call_twice:
  assumes "map_of dsl_setters name = Some field" and "builder < length (builders s)"
  shows "dsl_call builder name v2
           (s\<lparr>builders := (builders s)[builder := obj_set (builders s ! builder) field v1]\<rparr>)
         = dsl_call builder name v2 s"
  using assms by (simp add: dsl_call_setter obj_set_twice)

lemma dsl_chain_setters_fetch:
  "\<forall>name \<in> fst ` set calls. map_of dsl_setters name \<noteq> None \<Longrightarrow>
   builder < length (builders s) \<Longrightarrow>
   dsl_chain builder (calls @ [(''fetch'', input)]) s =
     Some (Inr Promise,
           request (requestOptions (self s)
             (JObj [(''qs'', JObj (recorded calls (builders s ! builder))),
                    (''uri'', JStr (toString (uri (self s)) @ ''/clans''))]))
             (s\<lparr>builders := (builders s)[builder := recorded calls (builders s ! builder)]\<rparr>))"
proof (induction calls arbitrary: s)
  case Nil
  then show ?case by (simp add: dsl_call_fetch)
next
  case (Cons c calls)
  obtain name v where c: "c = (name, v)" by (cases c)
  with Cons.prems(1) obtain field where f: "map_of dsl_setters name = Some field"
    by auto
  let ?s' = "s\<lparr>builders := (builders s)[builder := obj_set (builders s ! builder) field v]\<rparr>"
  have call: "dsl_call builder name v s = Some (Inr (Builder builder), ?s')"
    using f Cons.prems(2) by (rule dsl_call_setter)
  have "dsl_chain builder (calls @ [(''fetch'', input)]) ?s' =
     Some (Inr Promise,
           request (requestOptions (self ?s')
             (JObj [(''qs'', JObj (recorded calls (builders ?s' ! builder))),
                    (''uri'', JStr (toString (uri (self ?s')) @ ''/clans''))]))
             (?s'\<lparr>builders := (builders ?s')[builder := recorded calls (builders ?s' ! builder)]\<rparr>))"
    using Cons.prems by (intro Cons.IH) simp_all
  with call f c Cons.prems(2) show ?case by simp
qed

lemma clans_chain_fetch_setters:
  assumes "\<forall>name \<in> fst ` set calls. map_of dsl_setters name \<noteq> None"
  shows "outcome s (clans_chain_fetch calls s) =
          Some (Inr Promise,
                [requestOptions (self s)
                   (JObj [(''qs'', JObj (recorded calls [])),
                          (''uri'', JStr (toString (uri (self s)) @ ''/clans''))])])"
proof -
  let ?s1 = "s\<lparr>builders := builders s @ [[]]\<rparr>"
  let ?b = "length (builders s)"
  have "dsl_chain ?b (calls @ [(''fetch'', JUndefined)]) ?s1 =
     Some (Inr Promise,
           request (requestOptions (self ?s1)
             (JObj [(''qs'', JObj (recorded calls (builders ?s1 ! ?b))),
                    (''uri'', JStr (toString (uri (self ?s1)) @ ''/clans''))]))
             (?s1\<lparr>builders := (builders ?s1)[?b := recorded calls (builders ?s1 ! ?b)]\<rparr>))"
    using assms by (rule dsl_chain_setters_fetch) simp
  then show ?thesis
    by (simp add: clans_chain_fetch_def clans_def outcome_def issued_def)
qed

lemma recorded_append:
  "\<forall>name \<in> fst ` set calls. map_of dsl_setters name \<noteq> None \<Longrightarrow>
   recorded (calls @ calls') qs = recorded calls' (recorded calls qs)"
  by (induction calls arbitrary: qs) auto

lemma recorded_last:
  assumes "\<forall>name \<in> fst ` set calls. map_of dsl_setters name \<noteq> None"
    and "map_of dsl_setters name = Some field"
  shows "obj_get (recorded (calls @ [(name, input)]) qs) field = Some input"
  using assms by (simp add: recorded_append obj_get_obj_set)

section \<open>The method of a request\<close>

lemma getProp_unset:
  assumes "obj_get object k = None" and "\<not> sets_on src [k]"
  shows "getProp (baseMerge object src) k = JUndefined"
proof (cases "obj_get src k")
  case None
  with assms(1) show ?thesis by (simp add: getProp_def obj_get_baseMerge)
next
  case (Some v)
  with assms(2) have "v = JUndefined" by (cases v) simp_all
  with Some assms(1) show ?thesis by (simp add: getProp_def obj_get_baseMerge)
qed

lemma obj_get_baseMerge_absent:
  "obj_get src k = None \<Longrightarrow> obj_get (baseMerge object src) k = obj_get object k"
  by (simp add: obj_get_baseMerge)

lemma plain_request_method:
  assumes "\<not> sets_on (sourceProps (requestDefaults this)) [''method'']"
    and "obj_get ps ''method'' = None"
  shows "http_method (requestOptions this (JObj ps)) = ''GET''"
proof -
  have "obj_get (baseMerge (baseTemplate this) ps) ''method'' = None"
    using assms(2) by (simp add: obj_get_baseMerge_absent baseTemplate_def obj_get_Cons)
  then have "getProp (baseMerge (baseMerge (baseTemplate this) ps)
      (sourceProps (requestDefaults this))) ''method'' = JUndefined"
    using assms(1) by (rule getProp_unset)
  then show ?thesis
    by (simp add: http_method_def requestOptions_def merge_two js_or_def)
qed

section \<open>The claims\<close>

text \<open>
  C1. The base template holds the headers \<^verbatim>\<open>Accept: application/json\<close> and
  \<^verbatim>\<open>authorization: Bearer <token>\<close> and the flag \<^verbatim>\<open>json: true\<close>.
  \<^verbatim>\<open>requestOptions\<close> returns the deep merge of the base template, the options of
  the call and the defaults of the client, applied in that order. For every client,
  every options argument, every path of keys and every leaf value: a leaf that the
  defaults have on the path is the value of the result there; a leaf that the options of
  the call have there is the value of the result unless the defaults set something on
  the path; a leaf of the base template is the value of the result unless the options or
  the defaults set something on the path. A key is set by a source when the source has a
  value other than \<open>undefined\<close> for it.
\<close>

theorem requestOptions_precedence:
  "leaf v \<Longrightarrow>
   get_path (JObj (baseTemplate this)) [''headers'', ''Accept'']
     = Some (JStr ''application/json'') \<and>
   get_path (JObj (baseTemplate this)) [''headers'', ''authorization'']
     = Some (JStr (''Bearer '' @ toString (token this))) \<and>
   get_path (JObj (baseTemplate this)) [''json''] = Some (JBool True) \<and>
   requestOptions this opts =
     JObj (baseMerge (baseMerge (baseTemplate this) (sourceProps opts))
                     (sourceProps (requestDefaults this))) \<and>
   (get_path (JObj (sourceProps (requestDefaults this))) p = Some v
      \<longrightarrow> get_path (requestOptions this opts) p = Some v) \<and>
   (get_path (JObj (sourceProps opts)) p = Some v
      \<and> \<not> sets_on (sourceProps (requestDefaults this)) p
      \<longrightarrow> get_path (requestOptions this opts) p = Some v) \<and>
   (get_path (JObj (baseTemplate this)) p = Some v
      \<and> \<not> sets_on (sourceProps opts) p
      \<and> \<not> sets_on (sourceProps (requestDefaults this)) p
      \<longrightarrow> get_path (requestOptions this opts) p = Some v)"
proof -
  assume lf: "leaf v"
  let ?D = "sourceProps (requestDefaults this)"
  let ?O = "sourceProps opts"
  let ?B = "baseTemplate this"
  have eq: "requestOptions this opts = JObj (baseMerge (baseMerge ?B ?O) ?D)"
    by (simp add: requestOptions_def merge_two)
  have d: "get_path (JObj (baseMerge (baseMerge ?B ?O) ?D)) p = Some v"
    if "get_path (JObj ?D) p = Some v"
    using that lf leaf_path_nonempty baseMerge_wins by blast
  have o: "get_path (JObj (baseMerge (baseMerge ?B ?O) ?D)) p = Some v"
    if "get_path (JObj ?O) p = Some v" and "\<not> sets_on ?D p"
  proof -
    from that(1) lf have ne: "p \<noteq> []" by (rule leaf_path_nonempty)
    from ne that(1) lf have "get_path (JObj (baseMerge ?B ?O)) p = Some v"
      by (rule baseMerge_wins)
    with ne show ?thesis using that(2) by (rule baseMerge_keeps)
  qed
  have b: "get_path (JObj (baseMerge (baseMerge ?B ?O) ?D)) p = Some v"
    if "get_path (JObj ?B) p = Some v" and "\<not> sets_on ?O p" and "\<not> sets_on ?D p"
  proof -
    from that(1) lf have ne: "p \<noteq> []" by (rule leaf_path_nonempty)
    from ne that(1) that(2) have "get_path (JObj (baseMerge ?B ?O)) p = Some v"
      by (rule baseMerge_keeps)
    with ne show ?thesis using that(3) by (rule baseMerge_keeps)
  qed
  have t: "get_path (JObj ?B) [''headers'', ''Accept''] = Some (JStr ''application/json'')"
      "get_path (JObj ?B) [''headers'', ''authorization'']
         = Some (JStr (''Bearer '' @ toString (token this)))"
      "get_path (JObj ?B) [''json''] = Some (JBool True)"
    by (simp_all add: baseTemplate_def obj_get_Cons)
  from t eq d o b show ?thesis by simp
qed

theorem requestOptions_precedence_witness:
  "get_path (requestOptions witness_client witness_opts) [''headers'', ''authorization'']
     = Some (JStr ''D'')
   \<and> get_path (requestOptions witness_client witness_opts) [''headers'', ''Accept'']
     = Some (JStr ''text/plain'')
   \<and> get_path (requestOptions witness_client witness_opts) [''json''] = Some (JBool True)"
proof -
  have ls: "leaf (JStr s)" for s by simp
  have lb: "leaf (JBool b)" for b by simp
  have d: "get_path (JObj (sourceProps (requestDefaults witness_client)))
             [''headers'', ''authorization''] = Some (JStr ''D'')"
    by code_simp
  have o: "get_path (JObj (sourceProps witness_opts)) [''headers'', ''Accept'']
             = Some (JStr ''text/plain'')
           \<and> \<not> sets_on (sourceProps (requestDefaults witness_client)) [''headers'', ''Accept'']"
    by code_simp
  have b: "get_path (JObj (baseTemplate witness_client)) [''json''] = Some (JBool True)
           \<and> \<not> sets_on (sourceProps witness_opts) [''json'']
           \<and> \<not> sets_on (sourceProps (requestDefaults witness_client)) [''json'']"
    by code_simp
  from d have 1: "get_path (requestOptions witness_client witness_opts)
                    [''headers'', ''authorization''] = Some (JStr ''D'')"
    using requestOptions_precedence
            [OF ls [of "''D''"], of witness_client witness_opts "[''headers'', ''authorization'']"]
    by blast
  from o have 2: "get_path (requestOptions witness_client witness_opts)
                    [''headers'', ''Accept''] = Some (JStr ''text/plain'')"
    using requestOptions_precedence
            [OF ls [of "''text/plain''"], of witness_client witness_opts "[''headers'', ''Accept'']"]
    by blast
  from b have 3: "get_path (requestOptions witness_client witness_opts) [''json'']
                    = Some (JBool True)"
    using requestOptions_precedence
            [OF lb [of True], of witness_client witness_opts "[''json'']"]
    by blast
  from 1 2 3 show ?thesis by simp
qed

text \<open>
  C2, as the source behaves: for every location id and every state, both ranking chains
  \<^verbatim>\<open>locations().withId(L).byPlayer().fetch()\<close> and
  \<^verbatim>\<open>locations().withId(L).byClan().fetch()\<close> end in the \<^verbatim>\<open>ReferenceError\<close> that
  \<^verbatim>\<open>withId\<close> throws, since the module never binds \<^verbatim>\<open>assign\<close>, and no request is
  issued.
\<close>

theorem ranking_chain_throws:
  "withId_byPlayer_fetch locId s = (Inl (ReferenceError ''assign is not defined''), s)
   \<and> withId_byClan_fetch locId s = (Inl (ReferenceError ''assign is not defined''), s)
   \<and> issued s (snd (withId_byPlayer_fetch locId s)) = []
   \<and> issued s (snd (withId_byClan_fetch locId s)) = []"
  by (simp add: withId_byPlayer_fetch_def withId_byClan_fetch_def locations_withId_throws
        issued_def)

text \<open>
  C3. Constructing a client throws, and yields no instance, exactly when no token can be
  resolved: the token passed explicitly is missing or falsy (for a string: empty) and
  the environment variable is unset or empty. The error is the configuration error. When
  either source supplies a token, construction yields an instance.
\<close>

theorem ClashApi_throws_iff:
  "((\<exists>e. ClashApi env config = Inl e) \<longleftrightarrow>
      \<not> truthy (explicit_token config) \<and> \<not> (\<exists>t. COC_API_TOKEN env = Some t \<and> t \<noteq> []))
   \<and> ((ClashApi env config = Inl (Error missing_token_message)) \<longleftrightarrow>
      \<not> truthy (explicit_token config) \<and> \<not> (\<exists>t. COC_API_TOKEN env = Some t \<and> t \<noteq> []))
   \<and> ((\<exists>this. ClashApi env config = Inr this) \<longleftrightarrow>
      truthy (explicit_token config) \<or> (\<exists>t. COC_API_TOKEN env = Some t \<and> t \<noteq> []))
   \<and> (truthy (explicit_token config) \<longleftrightarrow>
      (\<exists>ps. config = Some ps \<and> truthy (getProp ps ''token'')))"
  by (cases config) (auto simp: ClashApi_token truthy_env_token explicit_token_def)

text \<open>
  C4. The claim as stated fails for a client whose defaults set \<^verbatim>\<open>qs.minMembers\<close>: the
  defaults are merged last, so the one request of
  \<^verbatim>\<open>clans().withMinMembers(10).withMinMembers(20).fetch()\<close> carries the value of the
  defaults, not the 20 written last.
\<close>

theorem clan_search_last_write_counterexample:
  "ClashApi \<lparr> COC_API_TOKEN = None, config_uri = JStr ''https://api'' \<rparr>
     (Some [(''token'', JStr ''t''),
            (''request'', JObj [(''qs'', JObj [(''minMembers'', JNum 5)])])])
   = Inr qs_override_client
   \<and> outcome (started qs_override_client)
       (clans_chain_fetch
          [(''withMinMembers'', JNum 10), (''withMinMembers'', JNum 20)]
          (started qs_override_client))
     = Some (Inr Promise,
             [requestOptions qs_override_client
                (JObj [(''qs'', JObj [(''minMembers'', JNum 20)]),
                       (''uri'', JStr ''https://api/clans'')])])
   \<and> get_path
        (requestOptions qs_override_client
           (JObj [(''qs'', JObj [(''minMembers'', JNum 20)]),
                  (''uri'', JStr ''https://api/clans'')]))
        [''qs'', ''minMembers'']
     = Some (JNum 5)"
  by code_simp

text \<open>
  C4, amended. For every client and every state: each \<^verbatim>\<open>with<Field>\<close> setter of a builder
  stores its value under its field in the query object of the builder and returns the
  builder it was called on, and calling it after the same setter was called gives what
  calling it alone gives, so that setting a field twice is setting it once with the
  second value. A chain of setters on \<^verbatim>\<open>clans()\<close> followed by \<^verbatim>\<open>fetch()\<close> returns the
  promise and issues exactly one request, whatever the length of the chain: the request
  that \<^verbatim>\<open>requestOptions\<close> makes of the query object the chain has written and the URI
  \<^verbatim>\<open>/clans\<close>; in that query object a field holds the value written to it last. For a
  client whose defaults set nothing on \<^verbatim>\<open>uri\<close>, on \<^verbatim>\<open>method\<close> or on that field of
  \<^verbatim>\<open>qs\<close>, and a leaf value written last, the request is a GET, its URI is the base URI
  followed by \<^verbatim>\<open>/clans\<close> and its query parameters hold that value.
\<close>

theorem clan_search_last_write:
  "(field \<in> set dsl_fields \<and> builder < length (builders s) \<longrightarrow>
      dsl_call builder (''with'' @ capitalizeFirstLetter field) v s =
        Some (Inr (Builder builder),
              s\<lparr>builders := (builders s)[builder := obj_set (builders s ! builder) field v]\<rparr>)
      \<and> dsl_call builder (''with'' @ capitalizeFirstLetter field) v2
          (s\<lparr>builders := (builders s)[builder := obj_set (builders s ! builder) field v1]\<rparr>)
        = dsl_call builder (''with'' @ capitalizeFirstLetter field) v2 s)
   \<and> ((\<forall>name \<in> fst ` set calls. map_of dsl_setters name \<noteq> None) \<longrightarrow>
        outcome s (clans_chain_fetch calls s) =
          Some (Inr Promise,
                [requestOptions (self s)
                   (JObj [(''qs'', JObj (recorded calls [])),
                          (''uri'', JStr (toString (uri (self s)) @ ''/clans''))])]))
   \<and> ((\<forall>name \<in> fst ` set calls. map_of dsl_setters name \<noteq> None)
        \<and> field \<in> set dsl_fields \<longrightarrow>
        obj_get (recorded (calls @ [(''with'' @ capitalizeFirstLetter field, input)]) []) field
          = Some input)
   \<and> ((\<forall>name \<in> fst ` set calls. map_of dsl_setters name \<noteq> None)
        \<and> field \<in> set dsl_fields \<and> leaf input
        \<and> \<not> sets_on (sourceProps (requestDefaults (self s))) [''qs'', field]
        \<and> \<not> sets_on (sourceProps (requestDefaults (self s))) [''uri'']
        \<and> \<not> sets_on (sourceProps (requestDefaults (self s))) [''method''] \<longrightarrow>
        (\<exists>r. outcome s (clans_chain_fetch
                  (calls @ [(''with'' @ capitalizeFirstLetter field, input)]) s)
                = Some (Inr Promise, [r])
            \<and> http_method r = ''GET''
            \<and> get_path r [''uri''] = Some (JStr (toString (uri (self s)) @ ''/clans''))
            \<and> get_path r [''qs'', field] = Some input))"
proof -
  let ?name = "''with'' @ capitalizeFirstLetter field"
  let ?calls = "calls @ [(?name, input)]"
  let ?opts = "JObj [(''qs'', JObj (recorded ?calls [])),
                     (''uri'', JStr (toString (uri (self s)) @ ''/clans''))]"
  have a: "dsl_call builder ?name v s =
        Some (Inr (Builder builder),
              s\<lparr>builders := (builders s)[builder := obj_set (builders s ! builder) field v]\<rparr>)
      \<and> dsl_call builder ?name v2
          (s\<lparr>builders := (builders s)[builder := obj_set (builders s ! builder) field v1]\<rparr>)
        = dsl_call builder ?name v2 s"
    if "field \<in> set dsl_fields" and "builder < length (builders s)"
  proof -
    from that(1) have "map_of dsl_setters ?name = Some field" by (rule setter_of_field)
    with that(2) show ?thesis
      using dsl_call_setter [of ?name field builder s v]
        dsl_call_twice [of ?name field builder s v2 v1]
      by simp
  qed
  have one: "outcome s (clans_chain_fetch cs s) =
          Some (Inr Promise,
                [requestOptions (self s)
                   (JObj [(''qs'', JObj (recorded cs [])),
                          (''uri'', JStr (toString (uri (self s)) @ ''/clans''))])])"
    if "\<forall>name \<in> fst ` set cs. map_of dsl_setters name \<noteq> None" for cs
    using that by (rule clans_chain_fetch_setters)
  have last: "obj_get (recorded ?calls []) field = Some input"
    if "\<forall>name \<in> fst ` set calls. map_of dsl_setters name \<noteq> None"
      and "field \<in> set dsl_fields"
    using that(1) setter_of_field [OF that(2)] by (rule recorded_last)
  have content: "\<exists>r. outcome s (clans_chain_fetch ?calls s) = Some (Inr Promise, [r])
            \<and> http_method r = ''GET''
            \<and> get_path r [''uri''] = Some (JStr (toString (uri (self s)) @ ''/clans''))
            \<and> get_path r [''qs'', field] = Some input"
    if setters: "\<forall>name \<in> fst ` set calls. map_of dsl_setters name \<noteq> None"
      and fld: "field \<in> set dsl_fields" and lf: "leaf input"
      and q: "\<not> sets_on (sourceProps (requestDefaults (self s))) [''qs'', field]"
      and u: "\<not> sets_on (sourceProps (requestDefaults (self s))) [''uri'']"
      and m: "\<not> sets_on (sourceProps (requestDefaults (self s))) [''method'']"
  proof -
    from fld have "map_of dsl_setters ?name = Some field" by (rule setter_of_field)
    with setters have all: "\<forall>name \<in> fst ` set ?calls. map_of dsl_setters name \<noteq> None"
      by auto
    have 1: "outcome s (clans_chain_fetch ?calls s)
        = Some (Inr Promise, [requestOptions (self s) ?opts])"
      using all by (rule one)
    have 2: "http_method (requestOptions (self s) ?opts) = ''GET''"
      using m by (rule plain_request_method) (simp add: obj_get_Cons)
    have 3: "get_path (requestOptions (self s) ?opts) [''uri'']
        = Some (JStr (toString (uri (self s)) @ ''/clans''))"
    proof (rule requestOptions_keeps_opts)
      show "get_path (JObj (sourceProps ?opts)) [''uri'']
          = Some (JStr (toString (uri (self s)) @ ''/clans''))"
        by (simp add: obj_get_Cons)
    qed (use u in simp_all)
    have 4: "get_path (requestOptions (self s) ?opts) [''qs'', field] = Some input"
    proof (rule requestOptions_keeps_opts)
      show "get_path (JObj (sourceProps ?opts)) [''qs'', field] = Some input"
        using last [OF setters fld] by (simp add: obj_get_Cons)
    qed (use lf q in simp_all)
    from 1 2 3 4 show ?thesis by blast
  qed
  from a one [of calls] last content show ?thesis by blast
qed

theorem clan_search_last_write_witness:
  "dsl_call 0 ''withMinMembers'' (JNum 20) (snd (clans (started qs_override_client)))
     = Some (Inr (Builder 0),
             (snd (clans (started qs_override_client)))
               \<lparr>builders := [[(''minMembers'', JNum 20)]]\<rparr>)
   \<and> outcome (started qs_override_client)
       (clans_chain_fetch
          [(''withMinMembers'', JNum 10), (''withMinMembers'', JNum 20)]
          (started qs_override_client))
     = Some (Inr Promise,
             [requestOptions qs_override_client
                (JObj [(''qs'', JObj [(''minMembers'', JNum 20)]),
                       (''uri'', JStr ''https://api/clans'')])])
   \<and> (\<exists>r. outcome (started env_client)
             (clans_chain_fetch
                ([(''withMinMembers'', JNum 10)] @ [(''withMinMembers'', JNum 20)])
                (started env_client))
           = Some (Inr Promise, [r])
         \<and> http_method r = ''GET''
         \<and> get_path r [''uri''] = Some (JStr ''https://api/clans'')
         \<and> get_path r [''qs'', ''minMembers''] = Some (JNum 20))
   \<and> obj_get (recorded ([(''withMinMembers'', JNum 10)] @ [(''withMinMembers'', JNum 20)]) [])
         ''minMembers''
       = Some (JNum 20)"
proof -
  have n: "''with'' @ capitalizeFirstLetter ''minMembers'' = ''withMinMembers''"
    by code_simp
  have fld: "''minMembers'' \<in> set dsl_fields"
    by (simp add: dsl_fields_def)
  have b: "0 < length (builders (snd (clans (started qs_override_client))))"
    by (simp add: clans_def started_def)
  have set1: "\<forall>name \<in> fst ` set [(''withMinMembers'', JNum 10)].
      map_of dsl_setters name \<noteq> None"
    by (simp add: dsl_setters_eq)
  have set2: "\<forall>name \<in> fst ` set [(''withMinMembers'', JNum 10), (''withMinMembers'', JNum 20)].
      map_of dsl_setters name \<noteq> None"
    by (simp add: dsl_setters_eq)
  have cond: "leaf (JNum 20)
      \<and> \<not> sets_on (sourceProps (requestDefaults (self (started env_client))))
            [''qs'', ''minMembers'']
      \<and> \<not> sets_on (sourceProps (requestDefaults (self (started env_client)))) [''uri'']
      \<and> \<not> sets_on (sourceProps (requestDefaults (self (started env_client)))) [''method'']"
    by code_simp
  have u: "toString (uri (self (started env_client))) = ''https://api''"
    by code_simp
  have 1: "dsl_call 0 ''withMinMembers'' (JNum 20) (snd (clans (started qs_override_client)))
     = Some (Inr (Builder 0),
             (snd (clans (started qs_override_client)))
               \<lparr>builders := [[(''minMembers'', JNum 20)]]\<rparr>)"
    using clan_search_last_write
            [of "''minMembers''" 0 "snd (clans (started qs_override_client))" "JNum 20",
             THEN conjunct1] fld b
    unfolding n by (simp add: clans_def started_def)
  have 2: "outcome (started qs_override_client)
       (clans_chain_fetch
          [(''withMinMembers'', JNum 10), (''withMinMembers'', JNum 20)]
          (started qs_override_client))
     = Some (Inr Promise,
             [requestOptions qs_override_client
                (JObj [(''qs'', JObj [(''minMembers'', JNum 20)]),
                       (''uri'', JStr ''https://api/clans'')])])"
    using clan_search_last_write
            [where calls = "[(''withMinMembers'', JNum 10), (''withMinMembers'', JNum 20)]"
               and s = "started qs_override_client",
             THEN conjunct2, THEN conjunct1] set2
    by (simp add: dsl_setters_eq started_def qs_override_client_def)
  have 3: "\<exists>r. outcome (started env_client)
             (clans_chain_fetch
                ([(''withMinMembers'', JNum 10)] @ [(''withMinMembers'', JNum 20)])
                (started env_client))
           = Some (Inr Promise, [r])
         \<and> http_method r = ''GET''
         \<and> get_path r [''uri''] = Some (JStr ''https://api/clans'')
         \<and> get_path r [''qs'', ''minMembers''] = Some (JNum 20)"
  proof -
    from clan_search_last_write
            [where calls = "[(''withMinMembers'', JNum 10)]" and field = "''minMembers''"
               and input = "JNum 20" and s = "started env_client",
             THEN conjunct2, THEN conjunct2, THEN conjunct2] set1 fld cond
    obtain r where
      "outcome (started env_client)
         (clans_chain_fetch
            ([(''withMinMembers'', JNum 10)]
               @ [(''with'' @ capitalizeFirstLetter ''minMembers'', JNum 20)])
            (started env_client))
         = Some (Inr Promise, [r])"
      and "http_method r = ''GET''"
      and "get_path r [''uri'']
         = Some (JStr (toString (uri (self (started env_client))) @ ''/clans''))"
      and "get_path r [''qs'', ''minMembers''] = Some (JNum 20)"
      by blast
    then show ?thesis
      unfolding n u by auto
  qed
  have 4: "obj_get (recorded ([(''withMinMembers'', JNum 10)] @ [(''withMinMembers'', JNum 20)]) [])
         ''minMembers''
       = Some (JNum 20)"
    using clan_search_last_write
            [where calls = "[(''withMinMembers'', JNum 10)]" and field = "''minMembers''"
               and input = "JNum 20",
             THEN conjunct2, THEN conjunct2, THEN conjunct1] set1 fld
    unfolding n by blast
  from 1 2 3 4 show ?thesis by blast
qed

text \<open>
  C5. The claim as stated fails for a client whose defaults set \<^verbatim>\<open>uri\<close>: the defaults
  are merged last, so the URI requested by \<^verbatim>\<open>clanByTag('#ABC123')\<close> is the one of the
  defaults and holds no tag at all.
\<close>

theorem tag_is_encoded_counterexample:
  "ClashApi \<lparr> COC_API_TOKEN = None, config_uri = JStr ''https://api'' \<rparr>
     (Some [(''token'', JStr ''t''), (''request'', JObj [(''uri'', JStr ''https://other/'')])])
   = Inr uri_override_client
   \<and> map (\<lambda>r. get_path r [''uri''])
       (issued (started uri_override_client)
          (clanByTag (JStr ''#ABC123'') (started uri_override_client)))
     = [Some (JStr ''https://other/'')]"
  by code_simp

text \<open>
  C5, amended. For a client whose defaults set nothing on \<^verbatim>\<open>uri\<close>, each of the seven
  methods that take a tag issues exactly one request, and its URI is the base URI, the
  path of the method and the tag as \<^verbatim>\<open>encodeURIComponent\<close> returns it. The encoded tag
  consists of unreserved characters and percent escapes only, so it holds no \<^verbatim>\<open>#\<close>;
  the tag \<^verbatim>\<open>#ABC123\<close> is encoded as \<^verbatim>\<open>%23ABC123\<close>.
\<close>

theorem tag_is_encoded:
  assumes "\<not> sets_on (sourceProps (requestDefaults (self s))) [''uri'']"
  shows "map (\<lambda>r. get_path r [''uri'']) (issued s (clanByTag tag s))
           = [Some (JStr (toString (uri (self s)) @ ''/clans/''
                @ encodeURIComponent tag))]
       \<and> map (\<lambda>r. get_path r [''uri'']) (issued s (clanMembersByTag tag s))
           = [Some (JStr (toString (uri (self s)) @ ''/clans/''
                @ encodeURIComponent tag @ ''/members''))]
       \<and> map (\<lambda>r. get_path r [''uri'']) (issued s (clanWarlogByTag tag s))
           = [Some (JStr (toString (uri (self s)) @ ''/clans/''
                @ encodeURIComponent tag @ ''/warlog''))]
       \<and> map (\<lambda>r. get_path r [''uri''])
             (issued s (clanCurrentWarByTag tag s))
           = [Some (JStr (toString (uri (self s)) @ ''/clans/''
                @ encodeURIComponent tag @ ''/currentwar''))]
       \<and> map (\<lambda>r. get_path r [''uri'']) (issued s (clanLeague tag s))
           = [Some (JStr (toString (uri (self s)) @ ''/clans/''
                @ encodeURIComponent tag @ ''/currentwar/leaguegroup''))]
       \<and> map (\<lambda>r. get_path r [''uri'']) (issued s (clanLeagueWars tag s))
           = [Some (JStr (toString (uri (self s)) @ ''/clanwarleagues/wars/''
                @ encodeURIComponent tag))]
       \<and> map (\<lambda>r. get_path r [''uri'']) (issued s (playerByTag tag s))
           = [Some (JStr (toString (uri (self s)) @ ''/players/''
                @ encodeURIComponent tag))]
       \<and> set (encodeURIComponent tag) \<subseteq> set uriUnreserved \<union> {CHR ''%''}
       \<and> CHR ''#'' \<notin> set (encodeURIComponent tag)
       \<and> encodeURIComponent (JStr ''#ABC123'') = ''%23ABC123''"
proof -
  note at = uri_request [OF assms]
  from at encodeURIComponent_chars [of tag] encodeURIComponent_no_hash [of tag]
    encodeURIComponent_example
  show ?thesis
    by (simp add: clanByTag_def clanMembersByTag_def clanWarlogByTag_def
          clanCurrentWarByTag_def clanLeague_def clanLeagueWars_def playerByTag_def)
qed

theorem tag_is_encoded_witness:
  "map (\<lambda>r. get_path r [''uri'']) (issued (started env_client)
       (clanByTag (JStr ''#ABC123'') (started env_client)))
     = [Some (JStr ''https://api/clans/%23ABC123'')]
   \<and> map (\<lambda>r. get_path r [''uri'']) (issued (started env_client)
       (playerByTag (JStr ''#ABC123'') (started env_client)))
     = [Some (JStr ''https://api/players/%23ABC123'')]"
proof -
  have h: "\<not> sets_on (sourceProps (requestDefaults (self (started env_client)))) [''uri'']"
    by code_simp
  have u: "toString (uri (self (started env_client))) = ''https://api''"
    by code_simp
  from tag_is_encoded [OF h, of "JStr ''#ABC123''"] show ?thesis
    by (simp add: u encodeURIComponent_example)
qed

text \<open>
  C6, as the source behaves: for every location id and every state, the chain
  \<^verbatim>\<open>locations().withId(L).fetch()\<close> ends in the \<^verbatim>\<open>ReferenceError\<close> of \<^verbatim>\<open>withId\<close>
  and issues no request; and the \<^verbatim>\<open>fetch\<close> of the second-level object, were the object
  ever built, throws a \<^verbatim>\<open>TypeError\<close>, because it is not bound to the client.
\<close>

theorem location_lookup_throws:
  "withId_fetch locId s = (Inl (ReferenceError ''assign is not defined''), s)
   \<and> issued s (snd (withId_fetch locId s)) = []
   \<and> locDsl_fetch (WithIdScope locId rankId) s
       = (Inl (TypeError ''this.requestOptions is not a function''), s)"
  by (simp add: withId_fetch_def locations_withId_throws issued_def)

text \<open>
  C7. For a client constructed with a token, passed explicitly or taken from the
  environment, and with empty defaults, every request that any program of calls issues
  carries the header \<^verbatim>\<open>Authorization\<close> with the value \<^verbatim>\<open>Bearer\<close>, a space and the
  token. The source writes the key in lower case, \<^verbatim>\<open>authorization\<close>; header names do
  not distinguish case.
\<close>

theorem authorization_header:
  assumes "ClashApi env config = Inr this"
    and "requestDefaults this = JObj []"
    and "r \<in> set (transport (run calls (started this)))"
  shows "token this = js_or (explicit_token config) (env_token env)
       \<and> header r ''Authorization'' = Some (JStr (''Bearer '' @ toString (token this)))
       \<and> get_path r [''headers'', ''authorization'']
           = Some (JStr (''Bearer '' @ toString (token this)))"
proof -
  from assms(1) have tok: "token this = js_or (explicit_token config) (env_token env)"
    by (auto simp: ClashApi_token split: if_splits)
  from assms(3) obtain ps where "r = requestOptions this (JObj ps)" "obj_get ps ''headers'' = None"
    using run_requests[of r calls "started this"] by (auto simp: started_def)
  with assms(2) tok show ?thesis
    by (simp add: plain_request_authorization)
qed

theorem authorization_header_witness:
  "header (transport (run witness_calls (started env_client)) ! 1) ''Authorization''
     = Some (JStr ''Bearer secret'')"
proof -
  have ok: "ClashApi witness_env None = Inr env_client"
    by code_simp
  have rd: "requestDefaults env_client = JObj []"
    by (simp add: env_client_def)
  have len: "1 < length (transport (run witness_calls (started env_client)))"
    by code_simp
  then have mem: "transport (run witness_calls (started env_client)) ! 1
      \<in> set (transport (run witness_calls (started env_client)))"
    by (rule nth_mem)
  have tok: "toString (token env_client) = ''secret''"
    by (simp add: env_client_def)
  from authorization_header [OF ok rd mem, THEN conjunct2, THEN conjunct1] show ?thesis
    unfolding tok by simp
qed

text \<open>
  C8. The claim as stated fails: a value passed under \<^verbatim>\<open>requestDefaults\<close> is ignored,
  the defaults of the client stay empty and the base template's \<^verbatim>\<open>json\<close> flag is not
  overridden.
\<close>

theorem requestDefaults_field_counterexample:
  "ClashApi \<lparr> COC_API_TOKEN = None, config_uri = JStr ''https://api'' \<rparr>
     (Some [(''token'', JStr ''t''), (''requestDefaults'', JObj [(''json'', JBool False)])])
   = Inr \<lparr> token = JStr ''t'', uri = JStr ''https://api'', requestDefaults = JObj [] \<rparr>
   \<and> get_path
        (requestOptions
           \<lparr> token = JStr ''t'', uri = JStr ''https://api'', requestDefaults = JObj [] \<rparr>
           (JObj []))
        [''json''] = Some (JBool True)"
  by code_simp

text \<open>
  C8, amended. The constructor reads the properties \<^verbatim>\<open>token\<close>, \<^verbatim>\<open>uri\<close> and
  \<^verbatim>\<open>request\<close> of its optional configuration object. The value under \<^verbatim>\<open>request\<close>,
  when truthy, is the defaults of the client (the empty object otherwise), and every
  leaf it has is the value at the same path of what \<^verbatim>\<open>requestOptions\<close> returns for any
  options, and of every request that a program of calls issues.
\<close>

theorem request_field_is_defaults:
  "ClashApi env config = Inr this \<Longrightarrow>
   token this = js_or (config_field config ''token'') (env_token env)
   \<and> uri this = js_or (config_field config ''uri'') (config_uri env)
   \<and> requestDefaults this = js_or (config_field config ''request'') (JObj [])
   \<and> (leaf v \<and> get_path (JObj (sourceProps (config_field config ''request''))) p = Some v
        \<longrightarrow> get_path (requestOptions this opts) p = Some v
          \<and> (\<forall>r \<in> set (transport (run calls (started this))). get_path r p = Some v))"
proof -
  assume ok: "ClashApi env config = Inr this"
  then have fields: "token this = js_or (config_field config ''token'') (env_token env)"
      "uri this = js_or (config_field config ''uri'') (config_uri env)"
      "requestDefaults this = js_or (config_field config ''request'') (JObj [])"
    using ClashApi_fields[of env config this]
    by (simp_all add: explicit_token_def config_field_def)
  have wins: "get_path (requestOptions this opts') p = Some v"
    if lf: "leaf v"
      and at: "get_path (JObj (sourceProps (config_field config ''request''))) p = Some v"
    for opts'
  proof -
    from at lf have ne: "p \<noteq> []" by (rule leaf_path_nonempty)
    have "truthy (config_field config ''request'')"
    proof (rule ccontr)
      assume "\<not> truthy (config_field config ''request'')"
      then have "sourceProps (config_field config ''request'') = []"
        by (rule sourceProps_falsy)
      with at ne show False by (cases p) simp_all
    qed
    with fields(3) have "requestDefaults this = config_field config ''request''"
      by (simp add: js_or_def)
    with at have "get_path (JObj (sourceProps (requestDefaults this))) p = Some v" by simp
    then show ?thesis using lf by (rule requestOptions_defaults_win)
  qed
  have "get_path r p = Some v"
    if lf: "leaf v"
      and at: "get_path (JObj (sourceProps (config_field config ''request''))) p = Some v"
      and r: "r \<in> set (transport (run calls (started this)))"
    for r
  proof -
    from r obtain ps where "r = requestOptions this (JObj ps)"
      using run_requests[of r calls "started this"] by (auto simp: started_def)
    with wins[OF lf at] show ?thesis by simp
  qed
  with wins fields show ?thesis by blast
qed

theorem request_field_is_defaults_witness:
  "get_path (requestOptions request_client (JObj [(''json'', JBool True)])) [''json'']
     = Some (JBool False)
   \<and> get_path (transport (run witness_calls (started request_client)) ! 1) [''json'']
     = Some (JBool False)"
proof -
  have ok: "ClashApi \<lparr> COC_API_TOKEN = None, config_uri = JStr ''https://api'' \<rparr>
       (Some [(''token'', JStr ''t''), (''request'', JObj [(''json'', JBool False)])])
     = Inr request_client"
    by code_simp
  have at: "leaf (JBool False) \<and>
      get_path (JObj (sourceProps (config_field
          (Some [(''token'', JStr ''t''), (''request'', JObj [(''json'', JBool False)])])
          ''request'')))
        [''json''] = Some (JBool False)"
    by code_simp
  have len: "1 < length (transport (run witness_calls (started request_client)))"
    by code_simp
  then have mem: "transport (run witness_calls (started request_client)) ! 1
      \<in> set (transport (run witness_calls (started request_client)))"
    by (rule nth_mem)
  from request_field_is_defaults
         [OF ok, of "JBool False" "[''json'']" "JObj [(''json'', JBool True)]" witness_calls]
       at mem
  show ?thesis by blast
qed

text \<open>
  C9. The configuration of a client is not changed by anything done with it: after any
  program of calls (direct fetches, builder calls, fetches and the location chains) the
  client of the state, and so each of its three fields, is what it was before; a client
  that a program starts from is the client it ends with.
\<close>

theorem client_unchanged:
  "self (run calls s) = self s
   \<and> token (self (run calls s)) = token (self s)
   \<and> uri (self (run calls s)) = uri (self s)
   \<and> requestDefaults (self (run calls s)) = requestDefaults (self s)
   \<and> self (exec call s) = self s
   \<and> self (run calls (started this)) = this"
proof -
  have "self (run calls' s') = self s'" for calls' s'
  proof (induction calls' arbitrary: s')
    case Nil
    show ?case by (simp add: run_def)
  next
    case (Cons c cs)
    have "self (run (c # cs) s') = self (run cs (exec c s'))" by (simp add: run_Cons)
    also have "\<dots> = self (exec c s')" by (rule Cons.IH)
    also have "\<dots> = self s'" using exec_effect[of c s'] by simp
    finally show ?case .
  qed
  then show ?thesis
    using exec_effect[of call s] by (simp add: started_def)
qed

text \<open>
  C10. A falsy token, the empty string among them, counts as no token: constructing with
  it gives what constructing without a \<^verbatim>\<open>token\<close> property gives. So with the
  environment variable set to a non-empty value the construction yields a client that
  holds the token of the environment, and with the variable unset it throws the
  configuration error.
\<close>

theorem falsy_token_is_no_token:
  "\<not> truthy v \<Longrightarrow>
   ClashApi env (Some (obj_set ps ''token'' v)) = ClashApi env (Some (removeKey ''token'' ps))
   \<and> (COC_API_TOKEN env = Some t \<and> t \<noteq> [] \<longrightarrow>
        (\<exists>this. ClashApi env (Some (obj_set ps ''token'' v)) = Inr this \<and> token this = JStr t))
   \<and> (COC_API_TOKEN env = None \<longrightarrow>
        ClashApi env (Some (obj_set ps ''token'' v)) = Inl (Error missing_token_message))"
  by (simp add: ClashApi_token explicit_token_def getProp_obj_set getProp_removeKey
        js_or_def env_token_def)

theorem falsy_token_is_no_token_witness:
  "(\<exists>this. ClashApi \<lparr> COC_API_TOKEN = Some ''secret'', config_uri = JStr ''https://api'' \<rparr>
              (Some (obj_set [] ''token'' (JStr ''''))) = Inr this
           \<and> token this = JStr ''secret'')
   \<and> ClashApi \<lparr> COC_API_TOKEN = None, config_uri = JStr ''https://api'' \<rparr>
        (Some (obj_set [] ''token'' (JStr ''''))) = Inl (Error missing_token_message)"
proof -
  have f: "\<not> truthy (JStr '''')" by simp
  have 1: "\<exists>this. ClashApi \<lparr> COC_API_TOKEN = Some ''secret'', config_uri = JStr ''https://api'' \<rparr>
              (Some (obj_set [] ''token'' (JStr ''''))) = Inr this
           \<and> token this = JStr ''secret''"
    using falsy_token_is_no_token
            [OF f, of "\<lparr> COC_API_TOKEN = Some ''secret'', config_uri = JStr ''https://api'' \<rparr>"
               "[]" "''secret''", THEN conjunct2, THEN conjunct1]
    by simp
  have 2: "ClashApi \<lparr> COC_API_TOKEN = None, config_uri = JStr ''https://api'' \<rparr>
        (Some (obj_set [] ''token'' (JStr ''''))) = Inl (Error missing_token_message)"
    using falsy_token_is_no_token
            [OF f, of "\<lparr> COC_API_TOKEN = None, config_uri = JStr ''https://api'' \<rparr>"
               "[]" "''secret''", THEN conjunct2, THEN conjunct2]
    by simp
  from 1 2 show ?thesis by (rule conjI)
qed

end
